theory Spec2Isabelle
  imports Main "HOL-Library.Word"
begin

unbundle bit_operations_syntax

section \<open>The data model of \<^verbatim>\<open>hackrf_read.c\<close>\<close>

text \<open>
  The program keeps three file-scope variables: the device handle \<^verbatim>\<open>device\<close>, the flag
  \<^verbatim>\<open>do_exit\<close> and the stream \<^verbatim>\<open>fp\<close>. Pointers are addresses, with \<open>None\<close> for
  \<^verbatim>\<open>NULL\<close>. Next to them the state holds what the program does to the outside: the bytes
  written to the output file, the text written to \<^verbatim>\<open>stderr\<close>, and the list of the library
  and system calls made so far, in order, with a mark where the handler or the callback
  is entered.
\<close>

type_synonym c_int = "32 word"
type_synonym byte = "8 word"
type_synonym ptr = nat

text \<open>
  Modelled from the spec: \<^verbatim>\<open>hackrf.h\<close> and the system headers are not part of the
  sources. The success code of the library is 0; \<^verbatim>\<open>HACKRF_TRUE\<close> is the 1 of the
  library's enumeration \<^verbatim>\<open>hackrf_error\<close>, and \<^verbatim>\<open>EXIT_FAILURE\<close> the 1 of \<^verbatim>\<open>stdlib.h\<close>.
  The general theorems below hold for any value of \<^verbatim>\<open>HACKRF_TRUE\<close>.
\<close>

definition HACKRF_SUCCESS :: c_int where
  "HACKRF_SUCCESS = 0"

definition HACKRF_TRUE :: c_int where
  "HACKRF_TRUE = 1"

definition EXIT_FAILURE :: c_int where
  "EXIT_FAILURE = 1"

definition DEFAULT_SAMPLE_RATE_HZ :: int where
  "DEFAULT_SAMPLE_RATE_HZ = 256000"

definition RADIO_FREQ :: "64 word" where
  "RADIO_FREQ = 85500000"

definition OUTPUT_FILE :: string where
  "OUTPUT_FILE = ''output_samples.raw''"

text \<open>
  Of \<^verbatim>\<open>hackrf_transfer\<close> the program reads two fields: the buffer (here the bytes stored
  at the pointer) and the number of valid bytes.
\<close>

record hackrf_transfer =
  buffer :: "byte list"
  valid_length :: int

datatype signame = SIGINT | SIGILL | SIGFPE | SIGSEGV | SIGTERM | SIGABRT

datatype call =
    Fopen string string
  | Hackrf_init
  | Hackrf_open_by_serial
  | Hackrf_set_freq "64 word"
  | Hackrf_set_sample_rate int
  | Signal signame
  | Hackrf_start_rx
  | Hackrf_is_streaming
  | Sleep nat
  | Hackrf_stop_rx
  | Hackrf_close
  | Hackrf_exit
  | Fclose
  | Enter_sigint_callback_handler
  | Enter_rx_callback

record state =
  device :: "ptr option"
  do_exit :: bool
  fp :: "ptr option"
  output_file :: "byte list"
  stderr :: string
  calls :: "call list"

definition initial :: state where
  "initial = \<lparr>device = None, do_exit = False, fp = None,
     output_file = [], stderr = [], calls = []\<rparr>"

definition log_call :: "call \<Rightarrow> state \<Rightarrow> state" where
  "log_call c s = s\<lparr>calls := calls s @ [c]\<rparr>"

subsection \<open>Formatted output\<close>

text \<open>The conversion \<^verbatim>\<open>%d\<close> of \<^verbatim>\<open>fprintf\<close>: a signed decimal numeral.\<close>

definition digit :: "nat \<Rightarrow> char" where
  "digit d = ''0123456789'' ! d"

fun show_nat :: "nat \<Rightarrow> string" where
  "show_nat n = (if n < 10 then [digit n] else show_nat (n div 10) @ [digit (n mod 10)])"

declare show_nat.simps [simp del]

definition show_int :: "int \<Rightarrow> string" where
  "show_int i = (if i < 0 then CHR ''-'' # show_nat (nat (- i)) else show_nat (nat i))"

definition fprintf_stderr :: "string \<Rightarrow> state \<Rightarrow> state" where
  "fprintf_stderr msg s = s\<lparr>stderr := stderr s @ msg\<rparr>"

text \<open>
  \<^verbatim>\<open>fwrite(ptr, size, nmemb, fp)\<close> on the output file: the first \<open>sz * nmemb\<close> bytes at
  \<open>ptr\<close> are appended. The C call reads past the buffer when it holds fewer bytes (and a
  negative \<open>sz\<close> converts to a huge \<^verbatim>\<open>size_t\<close>); \<open>take\<close> stops at the end of the list
  there, so the theorems about written bytes ask for \<open>0 \<le> valid_length \<le> length buffer\<close>.
  The write itself is taken to succeed: the program does not look at what \<^verbatim>\<open>fwrite\<close>
  returns.
\<close>

definition fwrite :: "byte list \<Rightarrow> int \<Rightarrow> int \<Rightarrow> state \<Rightarrow> state" where
  "fwrite p sz nmemb s = s\<lparr>output_file := output_file s @ take (nat (sz * nmemb)) p\<rparr>"

section \<open>The signal handler and the receive callback\<close>

definition sigint_callback_handler :: "c_int \<Rightarrow> state \<Rightarrow> state" where
  "sigint_callback_handler signum s =
     (let s = fprintf_stderr (''Caught signal '' @ show_int (sint signum) @ ''\<newline>'') s
      in s\<lparr>do_exit := True\<rparr>)"

definition rx_callback :: "hackrf_transfer \<Rightarrow> state \<Rightarrow> c_int \<times> state" where
  "rx_callback transfer s =
     (if do_exit s then (0, s)
      else
        let s = (if fp s \<noteq> None
                 then fwrite (buffer transfer) (valid_length transfer) 1 s
                 else s)
        in (0, s))"

section \<open>The environment of \<^verbatim>\<open>main\<close>\<close>

text \<open>
  The library, the C runtime and the operating system are outside the program. An
  environment fixes what they answer: the value each call returns, and which of the
  program's two asynchronous entry points run while \<^verbatim>\<open>main\<close> waits. The library invokes
  the receive callback only between a successful \<^verbatim>\<open>hackrf_start_rx\<close> and the return of
  \<^verbatim>\<open>hackrf_stop_rx\<close>: right after the start, during a \<^verbatim>\<open>sleep\<close>, or while the stop
  is in progress; handler invocations are placed at the same points.
\<close>

datatype event = Handler c_int | Callback hackrf_transfer

record env =
  fopen_ret :: "ptr option"
  fopen_errno :: int
  hackrf_init_ret :: c_int
  hackrf_open_by_serial_ret :: c_int
  hackrf_open_by_serial_device :: "ptr option"
  hackrf_set_freq_ret :: c_int
  hackrf_set_sample_rate_ret :: c_int
  hackrf_start_rx_ret :: c_int
  events_after_start :: "event list"
  hackrf_is_streaming_ret :: "nat \<Rightarrow> c_int"
  events_during_sleep :: "nat \<Rightarrow> event list"
  events_during_stop :: "event list"
  hackrf_stop_rx_ret :: c_int
  hackrf_close_ret :: c_int
  hackrf_exit_ret :: c_int
  fclose_ret :: c_int
  hackrf_error_name :: "c_int \<Rightarrow> string"

fun deliver :: "event \<Rightarrow> state \<Rightarrow> state" where
  "deliver (Handler signum) s =
     sigint_callback_handler signum (log_call Enter_sigint_callback_handler s)"
| "deliver (Callback transfer) s =
     snd (rx_callback transfer (log_call Enter_rx_callback s))"

fun deliver_all :: "event list \<Rightarrow> state \<Rightarrow> state" where
  "deliver_all [] s = s"
| "deliver_all (ev # evs) s = deliver_all evs (deliver ev s)"

section \<open>\<^verbatim>\<open>main\<close>\<close>

text \<open>
  \<^verbatim>\<open>fp = fopen(path, "w")\<close>: on success the file is created or truncated. A failing
  \<^verbatim>\<open>fopen\<close> leaves its reason in \<^verbatim>\<open>errno\<close> (\<open>fopen_errno\<close>), which the program never
  reads.
\<close>

definition fopen_w :: "env \<Rightarrow> string \<Rightarrow> state \<Rightarrow> state" where
  "fopen_w e path s =
     (let s = log_call (Fopen path ''w'') s
      in case fopen_ret e of
           None \<Rightarrow> s\<lparr>fp := None\<rparr>
         | Some p \<Rightarrow> s\<lparr>fp := Some p, output_file := []\<rparr>)"

text \<open>
  The diagnostic of a failed library call:
  \<^verbatim>\<open>fprintf(stderr, "<name> failed: %s (%d)\n", hackrf_error_name(result), result)\<close>.
\<close>

definition failed_msg :: "env \<Rightarrow> string \<Rightarrow> c_int \<Rightarrow> string" where
  "failed_msg e name result =
     name @ '' failed: '' @ hackrf_error_name e result @ '' ('' @ show_int (sint result)
       @ '')\<newline>''"

text \<open>
  Lines 101 to 152: everything before the receive is started. \<open>Inl (status, s)\<close> is a
  \<^verbatim>\<open>return status\<close> from \<^verbatim>\<open>main\<close>; \<open>Inr (result, s)\<close> goes on to the next statement with
  the local variable \<^verbatim>\<open>result\<close>.
\<close>

definition install_handlers :: "state \<Rightarrow> state" where
  "install_handlers s =
     (let s = log_call (Signal SIGINT) s;
          s = log_call (Signal SIGILL) s;
          s = log_call (Signal SIGFPE) s;
          s = log_call (Signal SIGSEGV) s;
          s = log_call (Signal SIGTERM) s;
          s = log_call (Signal SIGABRT) s
      in s)"

definition configure :: "env \<Rightarrow> state \<Rightarrow> (c_int \<times> state) + (c_int \<times> state)" where
  "configure e s =
     (let result = (0 :: c_int);
          freq_hz = RADIO_FREQ;
          s = fopen_w e OUTPUT_FILE s
      in if fp s = None
         then Inl (EXIT_FAILURE, fprintf_stderr ''Error opening output file'' s)
         else
     let result = hackrf_init_ret e;
         s = log_call Hackrf_init s
      in if result \<noteq> HACKRF_SUCCESS
         then Inl (EXIT_FAILURE, fprintf_stderr (failed_msg e ''hackrf_init()'' result) s)
         else
     let result = hackrf_open_by_serial_ret e;
         s = (log_call Hackrf_open_by_serial s)\<lparr>device := hackrf_open_by_serial_device e\<rparr>
      in if result \<noteq> HACKRF_SUCCESS
         then Inl (EXIT_FAILURE, fprintf_stderr (failed_msg e ''hackrf_open()'' result) s)
         else
     let result = hackrf_set_freq_ret e;
         s = log_call (Hackrf_set_freq freq_hz) s
      in if result \<noteq> HACKRF_SUCCESS
         then Inl (EXIT_FAILURE, fprintf_stderr (failed_msg e ''hackrf_set_freq()'' result) s)
         else
     let result = hackrf_set_sample_rate_ret e;
         s = log_call (Hackrf_set_sample_rate DEFAULT_SAMPLE_RATE_HZ) s
      in if result \<noteq> HACKRF_SUCCESS
         then Inl (EXIT_FAILURE,
                fprintf_stderr (failed_msg e ''hackrf_sample_rate_set()'' result) s)
         else Inr (result, install_handlers s))"

text \<open>Lines 154 to 160: \<^verbatim>\<open>result |= hackrf_start_rx(device, rx_callback, NULL)\<close>.\<close>

definition start_receiving ::
    "env \<Rightarrow> c_int \<Rightarrow> state \<Rightarrow> (c_int \<times> state) + (c_int \<times> state)" where
  "start_receiving e result s =
     (let result = result OR hackrf_start_rx_ret e;
          s = log_call Hackrf_start_rx s
      in if result \<noteq> HACKRF_SUCCESS
         then Inl (EXIT_FAILURE, fprintf_stderr (failed_msg e ''hackrf_start_rx()'' result) s)
         else Inr (result, deliver_all (events_after_start e) s))"

text \<open>
  Lines 162 to 167. The \<open>n\<close>-th evaluation of the loop condition calls
  \<^verbatim>\<open>hackrf_is_streaming\<close> and then reads \<^verbatim>\<open>do_exit\<close>; the body sleeps, and the events of
  that second run. The loop has no bound of its own: a run in which the device streams
  for ever and no signal arrives never returns, which is the value \<open>None\<close>.
\<close>

definition sleep :: "env \<Rightarrow> nat \<Rightarrow> state \<Rightarrow> state" where
  "sleep e n s = deliver_all (events_during_sleep e n) (log_call (Sleep 1) s)"

partial_function (option) liveness_loop :: "env \<Rightarrow> nat \<Rightarrow> state \<Rightarrow> state option" where
  "liveness_loop e n s =
     (let s = log_call Hackrf_is_streaming s
      in if hackrf_is_streaming_ret e n = HACKRF_TRUE \<and> do_exit s = False
         then liveness_loop e (Suc n) (sleep e n s)
         else Some s)"

declare liveness_loop.simps [code]

text \<open>Lines 169 to 188, with the value of \<^verbatim>\<open>result\<close> at the end.\<close>

definition teardown :: "env \<Rightarrow> c_int \<Rightarrow> state \<Rightarrow> c_int \<times> state" where
  "teardown e result s =
     (if device s \<noteq> None
      then
        let result = hackrf_stop_rx_ret e;
            s = deliver_all (events_during_stop e) (log_call Hackrf_stop_rx s);
            s = (if result \<noteq> HACKRF_SUCCESS
                 then fprintf_stderr (failed_msg e ''hackrf_stop_rx()'' result) s else s);
            result = hackrf_close_ret e;
            s = log_call Hackrf_close s;
            s = (if result \<noteq> HACKRF_SUCCESS
                 then fprintf_stderr (failed_msg e ''hackrf_close()'' result) s else s);
            s = log_call Hackrf_exit s;
            s = (if fp s \<noteq> None then log_call Fclose s else s)
        in (result, s)
      else (result, s))"

definition main :: "env \<Rightarrow> (c_int \<times> state) option" where
  "main e =
     (case configure e initial of
        Inl r \<Rightarrow> Some r
      | Inr (result, s) \<Rightarrow>
          (case start_receiving e result s of
             Inl r \<Rightarrow> Some r
           | Inr (result, s) \<Rightarrow>
               (case liveness_loop e 0 (fprintf_stderr ''Stop with Ctrl-C\<newline>'' s) of
                  None \<Rightarrow> None
                | Some s \<Rightarrow> Some (0, snd (teardown e result s)))))"

section \<open>Runs of the two entry points\<close>

text \<open>
  A sequence of invocations of the receive callback, with the status each one returns,
  and a sequence of deliveries of a signal to the handler.
\<close>

fun rx_callbacks :: "hackrf_transfer list \<Rightarrow> state \<Rightarrow> c_int list \<times> state" where
  "rx_callbacks [] s = ([], s)"
| "rx_callbacks (t # ts) s =
     (case rx_callback t s of
        (r, s') \<Rightarrow> (case rx_callbacks ts s' of (rs, s'') \<Rightarrow> (r # rs, s'')))"

fun signals :: "c_int list \<Rightarrow> state \<Rightarrow> state" where
  "signals [] s = s"
| "signals (n # ns) s = signals ns (sigint_callback_handler n s)"

definition valid_bytes :: "hackrf_transfer \<Rightarrow> byte list" where
  "valid_bytes t = take (nat (valid_length t)) (buffer t)"

definition well_formed :: "hackrf_transfer \<Rightarrow> bool" where
  "well_formed t = (0 \<le> valid_length t \<and> valid_length t \<le> int (length (buffer t)))"

fun is_handler :: "event \<Rightarrow> bool" where
  "is_handler (Handler n) = True"
| "is_handler (Callback t) = False"

section \<open>Vocabulary of the statements about \<^verbatim>\<open>main\<close>\<close>

text \<open>
  The six fallible startup steps in program order, what it means for the environment to
  let a step succeed, and the first step that fails.
\<close>

datatype step =
  Sink_open | Subsystem_init | Device_open | Frequency_set | Sample_rate_set | Stream_start

fun step_ok :: "env \<Rightarrow> step \<Rightarrow> bool" where
  "step_ok e Sink_open = (fopen_ret e \<noteq> None)"
| "step_ok e Subsystem_init = (hackrf_init_ret e = HACKRF_SUCCESS)"
| "step_ok e Device_open = (hackrf_open_by_serial_ret e = HACKRF_SUCCESS)"
| "step_ok e Frequency_set = (hackrf_set_freq_ret e = HACKRF_SUCCESS)"
| "step_ok e Sample_rate_set = (hackrf_set_sample_rate_ret e = HACKRF_SUCCESS)"
| "step_ok e Stream_start = (hackrf_start_rx_ret e = HACKRF_SUCCESS)"

definition startup_steps :: "step list" where
  "startup_steps =
     [Sink_open, Subsystem_init, Device_open, Frequency_set, Sample_rate_set, Stream_start]"

definition first_failure :: "env \<Rightarrow> step option" where
  "first_failure e = find (\<lambda>k. step_ok e k = False) startup_steps"

text \<open>The text the source prints when a step fails (lines 110, 118, 127, 135, 142, 158).\<close>

fun diagnostic :: "env \<Rightarrow> step \<Rightarrow> string" where
  "diagnostic e Sink_open = ''Error opening output file''"
| "diagnostic e Subsystem_init = failed_msg e ''hackrf_init()'' (hackrf_init_ret e)"
| "diagnostic e Device_open = failed_msg e ''hackrf_open()'' (hackrf_open_by_serial_ret e)"
| "diagnostic e Frequency_set = failed_msg e ''hackrf_set_freq()'' (hackrf_set_freq_ret e)"
| "diagnostic e Sample_rate_set =
     failed_msg e ''hackrf_sample_rate_set()'' (hackrf_set_sample_rate_ret e)"
| "diagnostic e Stream_start = failed_msg e ''hackrf_start_rx()'' (hackrf_start_rx_ret e)"

text \<open>The calls \<^verbatim>\<open>main\<close> has made when a step returns.\<close>

fun calls_until :: "step \<Rightarrow> call list" where
  "calls_until Sink_open = [Fopen OUTPUT_FILE ''w'']"
| "calls_until Subsystem_init = [Fopen OUTPUT_FILE ''w'', Hackrf_init]"
| "calls_until Device_open = [Fopen OUTPUT_FILE ''w'', Hackrf_init, Hackrf_open_by_serial]"
| "calls_until Frequency_set =
     [Fopen OUTPUT_FILE ''w'', Hackrf_init, Hackrf_open_by_serial, Hackrf_set_freq RADIO_FREQ]"
| "calls_until Sample_rate_set =
     [Fopen OUTPUT_FILE ''w'', Hackrf_init, Hackrf_open_by_serial, Hackrf_set_freq RADIO_FREQ,
      Hackrf_set_sample_rate DEFAULT_SAMPLE_RATE_HZ]"
| "calls_until Stream_start =
     [Fopen OUTPUT_FILE ''w'', Hackrf_init, Hackrf_open_by_serial, Hackrf_set_freq RADIO_FREQ,
      Hackrf_set_sample_rate DEFAULT_SAMPLE_RATE_HZ,
      Signal SIGINT, Signal SIGILL, Signal SIGFPE, Signal SIGSEGV, Signal SIGTERM,
      Signal SIGABRT, Hackrf_start_rx]"

fun is_teardown :: "call \<Rightarrow> bool" where
  "is_teardown Hackrf_stop_rx = True"
| "is_teardown Hackrf_close = True"
| "is_teardown Hackrf_exit = True"
| "is_teardown Fclose = True"
| "is_teardown c = False"

text \<open>
  The variant of lines 154 to 160 with a plain assignment,
  \<^verbatim>\<open>result = hackrf_start_rx(device, rx_callback, NULL)\<close>, and \<^verbatim>\<open>main\<close> built on it.
\<close>

definition start_receiving_assign ::
    "env \<Rightarrow> c_int \<Rightarrow> state \<Rightarrow> (c_int \<times> state) + (c_int \<times> state)" where
  "start_receiving_assign e result s =
     (let result = hackrf_start_rx_ret e;
          s = log_call Hackrf_start_rx s
      in if result \<noteq> HACKRF_SUCCESS
         then Inl (EXIT_FAILURE, fprintf_stderr (failed_msg e ''hackrf_start_rx()'' result) s)
         else Inr (result, deliver_all (events_after_start e) s))"

definition main_assign :: "env \<Rightarrow> (c_int \<times> state) option" where
  "main_assign e =
     (case configure e initial of
        Inl r \<Rightarrow> Some r
      | Inr (result, s) \<Rightarrow>
          (case start_receiving_assign e result s of
             Inl r \<Rightarrow> Some r
           | Inr (result, s) \<Rightarrow>
               (case liveness_loop e 0 (fprintf_stderr ''Stop with Ctrl-C\<newline>'' s) of
                  None \<Rightarrow> None
                | Some s \<Rightarrow> Some (0, snd (teardown e result s)))))"

text \<open>
  A concrete environment: every call succeeds, the device keeps streaming, a buffer of
  three bytes arrives during the first second and signal 2 during the second one, and a
  last buffer arrives while the stream is being stopped.
\<close>

definition env_ok :: env where
  "env_ok =
     \<lparr>fopen_ret = Some 1, fopen_errno = 0, hackrf_init_ret = 0,
      hackrf_open_by_serial_ret = 0, hackrf_open_by_serial_device = Some 2,
      hackrf_set_freq_ret = 0, hackrf_set_sample_rate_ret = 0, hackrf_start_rx_ret = 0,
      events_after_start = [],
      hackrf_is_streaming_ret = (\<lambda>n. 1),
      events_during_sleep =
        (\<lambda>n. if n = 0 then [Callback \<lparr>buffer = [1, 2, 3], valid_length = 3\<rparr>]
             else [Handler 2]),
      events_during_stop = [Callback \<lparr>buffer = [4, 5], valid_length = 2\<rparr>],
      hackrf_stop_rx_ret = 0, hackrf_close_ret = 0, hackrf_exit_ret = 0, fclose_ret = 0,
      hackrf_error_name = (\<lambda>r. ''error'')\<rparr>"

section \<open>Properties of the handler and the callback\<close>

lemma rx_callback_status: "fst (rx_callback t s) = 0"
  by (simp add: rx_callback_def Let_def)

lemma rx_callback_write:
  "do_exit s = False \<Longrightarrow> fp s \<noteq> None \<Longrightarrow>
     snd (rx_callback t s) = s\<lparr>output_file := output_file s @ valid_bytes t\<rparr>"
  by (simp add: rx_callback_def fwrite_def valid_bytes_def)

lemma rx_callback_skip: "do_exit s \<Longrightarrow> rx_callback t s = (0, s)"
  by (simp add: rx_callback_def)

lemma rx_callback_frame:
  "do_exit (snd (rx_callback t s)) = do_exit s"
  "fp (snd (rx_callback t s)) = fp s"
  "device (snd (rx_callback t s)) = device s"
  "calls (snd (rx_callback t s)) = calls s"
  "stderr (snd (rx_callback t s)) = stderr s"
  by (simp_all add: rx_callback_def fwrite_def)

lemma handler_eq:
  "sigint_callback_handler n s =
     s\<lparr>stderr := stderr s @ ''Caught signal '' @ show_int (sint n) @ ''\<newline>'',
       do_exit := True\<rparr>"
  by (simp add: sigint_callback_handler_def fprintf_stderr_def)

lemma length_valid_bytes: "well_formed t \<Longrightarrow> int (length (valid_bytes t)) = valid_length t"
  by (auto simp: well_formed_def valid_bytes_def min_def)

lemma signals_do_exit: "do_exit s \<Longrightarrow> do_exit (signals ns s)"
  by (induction ns arbitrary: s) (simp_all add: handler_eq)

lemma deliver_do_exit: "do_exit s \<Longrightarrow> do_exit (deliver ev s)"
  by (cases ev) (simp_all add: handler_eq rx_callback_frame log_call_def)

lemma deliver_all_do_exit: "do_exit s \<Longrightarrow> do_exit (deliver_all evs s)"
  by (induction evs arbitrary: s) (simp_all add: deliver_do_exit)

text \<open>
  C1. Any number of callback invocations made while the exit flag is false and the
  stream is open append the valid bytes of their buffers to the output file, in the order
  of the invocations; the bytes appended number the sum of the valid lengths; every
  invocation returns the success status, and the flag is still false afterwards.
\<close>

theorem rx_callbacks_append:
  assumes "do_exit s = False" and "fp s \<noteq> None" and "list_all well_formed ts"
  shows "output_file (snd (rx_callbacks ts s)) = output_file s @ concat (map valid_bytes ts)
       \<and> int (length (concat (map valid_bytes ts))) = sum_list (map valid_length ts)
       \<and> fst (rx_callbacks ts s) = replicate (length ts) HACKRF_SUCCESS
       \<and> do_exit (snd (rx_callbacks ts s)) = False"
  using assms
proof (induction ts arbitrary: s)
  case Nil
  then show ?case by simp
next
  case (Cons t ts)
  obtain r s' where step: "rx_callback t s = (r, s')"
    by (cases "rx_callback t s")
  have r: "r = 0"
    using rx_callback_status [of t s] step by simp
  have s': "s' = s\<lparr>output_file := output_file s @ valid_bytes t\<rparr>"
    using rx_callback_write [OF Cons.prems(1,2), of t] step by simp
  have "do_exit s' = False" and "fp s' \<noteq> None" and "list_all well_formed ts"
    using Cons.prems by (simp_all add: s')
  from Cons.IH [OF this]
  have IH: "output_file (snd (rx_callbacks ts s')) = output_file s' @ concat (map valid_bytes ts)"
    "int (length (concat (map valid_bytes ts))) = sum_list (map valid_length ts)"
    "fst (rx_callbacks ts s') = replicate (length ts) HACKRF_SUCCESS"
    "do_exit (snd (rx_callbacks ts s')) = False"
    by simp_all
  have len: "int (length (valid_bytes t)) = valid_length t"
    using Cons.prems(3) by (simp add: length_valid_bytes)
  show ?case
    using IH len by (auto simp: step r s' HACKRF_SUCCESS_def split: prod.splits)
qed

theorem rx_callbacks_append_witness:
  "output_file (snd (rx_callbacks
       [\<lparr>buffer = [1, 2, 3], valid_length = 3\<rparr>, \<lparr>buffer = [4, 5], valid_length = 1\<rparr>]
       (initial\<lparr>fp := Some 1\<rparr>))) = [1, 2, 3, 4]
   \<and> fst (rx_callbacks
       [\<lparr>buffer = [1, 2, 3], valid_length = 3\<rparr>, \<lparr>buffer = [4, 5], valid_length = 1\<rparr>]
       (initial\<lparr>fp := Some 1\<rparr>)) = [0, 0]"
  using rx_callbacks_append [of "initial\<lparr>fp := Some 1\<rparr>"
      "[\<lparr>buffer = [1, 2, 3], valid_length = 3\<rparr>, \<lparr>buffer = [4, 5], valid_length = 1\<rparr>]"]
  by (simp add: initial_def well_formed_def valid_bytes_def HACKRF_SUCCESS_def)

text \<open>
  C2. An invocation of the callback made while the exit flag is true returns the success
  status and leaves the whole state as it was, the output file included; so does any
  number of further invocations.
\<close>

theorem rx_callback_after_exit:
  assumes "do_exit s"
  shows "rx_callback t s = (HACKRF_SUCCESS, s)
       \<and> rx_callbacks ts s = (replicate (length ts) HACKRF_SUCCESS, s)"
proof -
  have "rx_callbacks ts s = (replicate (length ts) 0, s)"
    by (induction ts) (simp_all add: rx_callback_skip [OF assms])
  then show ?thesis
    by (simp add: rx_callback_skip [OF assms] HACKRF_SUCCESS_def)
qed

theorem rx_callback_after_exit_witness:
  "rx_callback \<lparr>buffer = [1, 2, 3], valid_length = 3\<rparr>
       (initial\<lparr>fp := Some 1, do_exit := True, output_file := [9]\<rparr>)
     = (0, initial\<lparr>fp := Some 1, do_exit := True, output_file := [9]\<rparr>)
   \<and> output_file (snd (rx_callbacks
         [\<lparr>buffer = [1, 2, 3], valid_length = 3\<rparr>, \<lparr>buffer = [4, 5], valid_length = 2\<rparr>]
         (initial\<lparr>fp := Some 1, do_exit := True, output_file := [9]\<rparr>))) = [9]"
  using rx_callback_after_exit [of "initial\<lparr>fp := Some 1, do_exit := True, output_file := [9]\<rparr>"
      "\<lparr>buffer = [1, 2, 3], valid_length = 3\<rparr>"
      "[\<lparr>buffer = [1, 2, 3], valid_length = 3\<rparr>, \<lparr>buffer = [4, 5], valid_length = 2\<rparr>]"]
  by (simp add: initial_def HACKRF_SUCCESS_def rx_callback_def)

text \<open>
  C4, as the code has it. The handler first writes the line \<^verbatim>\<open>Caught signal <n>\<close> to
  \<^verbatim>\<open>stderr\<close> and then assigns true to the exit flag. The flag is the only program variable
  it changes: the device handle, the stream pointer and the output file are as before,
  and it makes no library call.
\<close>

theorem sigint_callback_handler_effect:
  "sigint_callback_handler n s =
     s\<lparr>stderr := stderr s @ ''Caught signal '' @ show_int (sint n) @ ''\<newline>'',
       do_exit := True\<rparr>
   \<and> device (sigint_callback_handler n s) = device s
   \<and> fp (sigint_callback_handler n s) = fp s
   \<and> output_file (sigint_callback_handler n s) = output_file s
   \<and> calls (sigint_callback_handler n s) = calls s"
  by (simp add: handler_eq)

text \<open>
  C4 as stated fails: the handler performs output. Delivering signal 2 in the initial
  state leaves a line on \<^verbatim>\<open>stderr\<close>.
\<close>

theorem sigint_callback_handler_prints:
  "stderr (sigint_callback_handler 2 initial) = ''Caught signal 2\<newline>''
   \<and> stderr (sigint_callback_handler 2 initial) \<noteq> stderr initial"
  by (simp add: handler_eq initial_def show_int_def show_nat.simps digit_def)

text \<open>
  C5. The callback returns the success status on every invocation, in every state, so it
  never makes the library stop the stream by its return value; nor does it make a
  library call or change the device handle. A failure status is returned in no state at
  all, hence in none that precedes the release of the resources.
\<close>

theorem rx_callback_never_fails:
  "fst (rx_callback t s) = HACKRF_SUCCESS
   \<and> calls (snd (rx_callback t s)) = calls s
   \<and> device (snd (rx_callback t s)) = device s"
  by (simp add: rx_callback_status rx_callback_frame HACKRF_SUCCESS_def)

section \<open>Properties of \<^verbatim>\<open>main\<close>\<close>

subsection \<open>Startup\<close>

lemmas run_defs = main_def configure_def start_receiving_def teardown_def fopen_w_def
  install_handlers_def log_call_def fprintf_stderr_def initial_def sleep_def

lemma first_failure_None:
  "first_failure e = None \<longleftrightarrow>
     fopen_ret e \<noteq> None \<and> hackrf_init_ret e = HACKRF_SUCCESS \<and>
     hackrf_open_by_serial_ret e = HACKRF_SUCCESS \<and> hackrf_set_freq_ret e = HACKRF_SUCCESS \<and>
     hackrf_set_sample_rate_ret e = HACKRF_SUCCESS \<and> hackrf_start_rx_ret e = HACKRF_SUCCESS"
  by (auto simp: first_failure_def startup_steps_def)

lemma first_failure_Some:
  "first_failure e = Some k \<Longrightarrow>
     step_ok e k = False \<and> (\<forall>j \<in> set (takeWhile (\<lambda>j. j \<noteq> k) startup_steps). step_ok e j)"
  by (auto simp: first_failure_def startup_steps_def split: if_splits)

lemma main_abort:
  assumes "first_failure e = Some k"
  shows "\<exists>s. main e = Some (EXIT_FAILURE, s) \<and> stderr s = diagnostic e k
           \<and> calls s = calls_until k \<and> output_file s = [] \<and> do_exit s = False
           \<and> fp s = fopen_ret e"
proof (cases k)
  case Sink_open
  with first_failure_Some [OF assms] show ?thesis
    by (simp add: run_defs startup_steps_def)
next
  case Subsystem_init
  with first_failure_Some [OF assms] show ?thesis
    by (auto simp: run_defs startup_steps_def)
next
  case Device_open
  with first_failure_Some [OF assms] show ?thesis
    by (auto simp: run_defs startup_steps_def)
next
  case Frequency_set
  with first_failure_Some [OF assms] show ?thesis
    by (auto simp: run_defs startup_steps_def)
next
  case Sample_rate_set
  with first_failure_Some [OF assms] show ?thesis
    by (auto simp: run_defs startup_steps_def)
next
  case Stream_start
  with first_failure_Some [OF assms] show ?thesis
    by (auto simp: run_defs startup_steps_def HACKRF_SUCCESS_def)
qed

lemma configure_ok:
  assumes "first_failure e = None"
  shows "\<exists>s. configure e initial = Inr (HACKRF_SUCCESS, s) \<and> fp s \<noteq> None
           \<and> device s = hackrf_open_by_serial_device e
           \<and> filter is_teardown (calls s) = [] \<and> do_exit s = False"
  using assms unfolding first_failure_None
  by (auto simp: configure_def fopen_w_def install_handlers_def log_call_def initial_def)

lemma start_receiving_ok:
  assumes "first_failure e = None"
  shows "start_receiving e HACKRF_SUCCESS s =
           Inr (HACKRF_SUCCESS, deliver_all (events_after_start e) (log_call Hackrf_start_rx s))"
  using assms unfolding first_failure_None
  by (simp add: start_receiving_def HACKRF_SUCCESS_def)

subsection \<open>Asynchronous events\<close>

lemma deliver_all_handler: "list_ex is_handler evs \<Longrightarrow> do_exit (deliver_all evs s)"
proof (induction evs arbitrary: s)
  case Nil
  then show ?case by simp
next
  case (Cons ev evs)
  show ?case
  proof (cases ev)
    case (Handler n)
    then have "do_exit (deliver ev s)" by (simp add: handler_eq)
    then show ?thesis by (simp add: deliver_all_do_exit)
  next
    case (Callback t)
    with Cons show ?thesis by simp
  qed
qed

lemma deliver_frame:
  "device (deliver ev s) = device s"
  "fp (deliver ev s) = fp s"
  "filter is_teardown (calls (deliver ev s)) = filter is_teardown (calls s)"
  by (cases ev; simp add: handler_eq rx_callback_frame log_call_def)+

lemma deliver_all_frame:
  "device (deliver_all evs s) = device s
   \<and> fp (deliver_all evs s) = fp s
   \<and> filter is_teardown (calls (deliver_all evs s)) = filter is_teardown (calls s)"
  by (induction evs arbitrary: s) (simp_all add: deliver_frame)

lemma deliver_calls: "\<exists>cs. calls (deliver ev s) = calls s @ cs"
  by (cases ev) (simp_all add: handler_eq rx_callback_frame log_call_def)

lemma deliver_all_calls: "\<exists>cs. calls (deliver_all evs s) = calls s @ cs"
proof (induction evs arbitrary: s)
  case Nil
  then show ?case by simp
next
  case (Cons ev evs)
  obtain c1 where c1: "calls (deliver ev s) = calls s @ c1"
    using deliver_calls by blast
  obtain c2 where "calls (deliver_all evs (deliver ev s)) = calls (deliver ev s) @ c2"
    using Cons.IH by blast
  then show ?case by (simp add: c1)
qed

lemma deliver_all_do_exit_cong:
  "do_exit t = do_exit t' \<Longrightarrow> do_exit (deliver_all evs t) = do_exit (deliver_all evs t')"
proof (induction evs arbitrary: t t')
  case Nil
  then show ?case by simp
next
  case (Cons ev evs)
  have "do_exit (deliver ev t) = do_exit (deliver ev t')"
    using Cons.prems by (cases ev) (simp_all add: handler_eq rx_callback_frame log_call_def)
  from Cons.IH [OF this] show ?case by simp
qed

subsection \<open>The liveness loop\<close>

lemma loop_stop:
  "do_exit s \<or> hackrf_is_streaming_ret e n \<noteq> HACKRF_TRUE \<Longrightarrow>
     liveness_loop e n s = Some (log_call Hackrf_is_streaming s)"
  by (subst liveness_loop.simps) (auto simp: log_call_def)

lemma loop_continue:
  "do_exit s = False \<Longrightarrow> hackrf_is_streaming_ret e n = HACKRF_TRUE \<Longrightarrow>
     liveness_loop e n s =
       liveness_loop e (Suc n) (sleep e n (log_call Hackrf_is_streaming s))"
  by (subst liveness_loop.simps) (simp add: log_call_def)

lemma loop_returns_signal:
  "list_ex is_handler (events_during_sleep e (n + k)) \<Longrightarrow> \<exists>s'. liveness_loop e n s = Some s'"
proof (induction k arbitrary: n s)
  case 0
  show ?case
  proof (cases "do_exit s \<or> hackrf_is_streaming_ret e n \<noteq> HACKRF_TRUE")
    case True
    then show ?thesis by (simp add: loop_stop)
  next
    case False
    then have c: "liveness_loop e n s =
        liveness_loop e (Suc n) (sleep e n (log_call Hackrf_is_streaming s))"
      by (simp add: loop_continue)
    have "do_exit (sleep e n (log_call Hackrf_is_streaming s))"
      using 0 by (simp add: sleep_def deliver_all_handler)
    then show ?thesis by (simp add: c loop_stop)
  qed
next
  case (Suc k)
  show ?case
  proof (cases "do_exit s \<or> hackrf_is_streaming_ret e n \<noteq> HACKRF_TRUE")
    case True
    then show ?thesis by (simp add: loop_stop)
  next
    case False
    then have c: "liveness_loop e n s =
        liveness_loop e (Suc n) (sleep e n (log_call Hackrf_is_streaming s))"
      by (simp add: loop_continue)
    from Suc.prems have "list_ex is_handler (events_during_sleep e (Suc n + k))" by simp
    from Suc.IH [OF this] show ?thesis by (simp add: c)
  qed
qed

lemma loop_frame:
  assumes "liveness_loop e n s = Some s'"
  shows "device s' = device s \<and> fp s' = fp s
     \<and> filter is_teardown (calls s') = filter is_teardown (calls s)"
proof (rule liveness_loop.raw_induct [where P = "\<lambda>e n s s'. device s' = device s \<and> fp s' = fp s
     \<and> filter is_teardown (calls s') = filter is_teardown (calls s)", OF _ assms])
  fix loop e n s s'
  assume IH: "\<And>e n s s'. loop e n s = Some s' \<Longrightarrow> device s' = device s \<and> fp s' = fp s
     \<and> filter is_teardown (calls s') = filter is_teardown (calls s)"
    and body: "(let s = log_call Hackrf_is_streaming s
        in if hackrf_is_streaming_ret e n = HACKRF_TRUE \<and> do_exit s = False
           then loop e (Suc n) (sleep e n s) else Some s) = Some s'"
  show "device s' = device s \<and> fp s' = fp s
     \<and> filter is_teardown (calls s') = filter is_teardown (calls s)"
  proof (cases "hackrf_is_streaming_ret e n = HACKRF_TRUE \<and> do_exit s = False")
    case True
    with body have "loop e (Suc n) (sleep e n (log_call Hackrf_is_streaming s)) = Some s'"
      by (simp add: log_call_def)
    from IH [OF this] show ?thesis
      by (simp add: sleep_def deliver_all_frame log_call_def)
  next
    case False
    with body have "s' = log_call Hackrf_is_streaming s"
      by (auto simp: log_call_def)
    then show ?thesis by (simp add: log_call_def)
  qed
qed

lemma loop_calls:
  assumes "liveness_loop e n s = Some s'"
  shows "\<exists>cs. calls s' = calls s @ Hackrf_is_streaming # cs
       \<and> (cs = [] \<or> (hd cs = Sleep 1 \<and> do_exit s = False
              \<and> hackrf_is_streaming_ret e n = HACKRF_TRUE))"
proof (rule liveness_loop.raw_induct [where P = "\<lambda>e n s s'.
     \<exists>cs. calls s' = calls s @ Hackrf_is_streaming # cs
       \<and> (cs = [] \<or> (hd cs = Sleep 1 \<and> do_exit s = False
              \<and> hackrf_is_streaming_ret e n = HACKRF_TRUE))", OF _ assms])
  fix loop e n s s'
  assume IH: "\<And>e n s s'. loop e n s = Some s' \<Longrightarrow>
     \<exists>cs. calls s' = calls s @ Hackrf_is_streaming # cs
       \<and> (cs = [] \<or> (hd cs = Sleep 1 \<and> do_exit s = False
              \<and> hackrf_is_streaming_ret e n = HACKRF_TRUE))"
    and body: "(let s = log_call Hackrf_is_streaming s
        in if hackrf_is_streaming_ret e n = HACKRF_TRUE \<and> do_exit s = False
           then loop e (Suc n) (sleep e n s) else Some s) = Some s'"
  show "\<exists>cs. calls s' = calls s @ Hackrf_is_streaming # cs
       \<and> (cs = [] \<or> (hd cs = Sleep 1 \<and> do_exit s = False
              \<and> hackrf_is_streaming_ret e n = HACKRF_TRUE))"
  proof (cases "hackrf_is_streaming_ret e n = HACKRF_TRUE \<and> do_exit s = False")
    case True
    with body have "loop e (Suc n) (sleep e n (log_call Hackrf_is_streaming s)) = Some s'"
      by (simp add: log_call_def)
    from IH [OF this] obtain cs where
      cs: "calls s' = calls (sleep e n (log_call Hackrf_is_streaming s)) @ Hackrf_is_streaming # cs"
      by blast
    obtain ds where
      ds: "calls (sleep e n (log_call Hackrf_is_streaming s)) =
             calls (log_call (Sleep 1) (log_call Hackrf_is_streaming s)) @ ds"
      unfolding sleep_def using deliver_all_calls by blast
    have "calls s' = calls s @ Hackrf_is_streaming # (Sleep 1 # ds @ Hackrf_is_streaming # cs)"
      unfolding cs ds by (simp add: log_call_def)
    with True show ?thesis by auto
  next
    case False
    with body have "s' = log_call Hackrf_is_streaming s"
      by (auto simp: log_call_def)
    then show ?thesis by (simp add: log_call_def)
  qed
qed

subsection \<open>From startup to teardown\<close>

lemma configure_Inr:
  "configure e initial = Inr (result, s) \<Longrightarrow>
     result = HACKRF_SUCCESS \<and> fp s \<noteq> None \<and> device s = hackrf_open_by_serial_device e
     \<and> filter is_teardown (calls s) = []"
  by (auto simp: configure_def fopen_w_def install_handlers_def log_call_def
      fprintf_stderr_def initial_def Let_def split: if_splits option.splits)

lemma main_ok:
  assumes "first_failure e = None"
  shows "\<exists>s. main e =
             map_option (\<lambda>s'. (0, snd (teardown e HACKRF_SUCCESS s'))) (liveness_loop e 0 s)
           \<and> fp s \<noteq> None \<and> device s = hackrf_open_by_serial_device e
           \<and> filter is_teardown (calls s) = []
           \<and> do_exit s = do_exit (deliver_all (events_after_start e) initial)"
proof -
  obtain s where s: "configure e initial = Inr (HACKRF_SUCCESS, s)" "fp s \<noteq> None"
      "device s = hackrf_open_by_serial_device e" "filter is_teardown (calls s) = []"
      "do_exit s = False"
    using configure_ok [OF assms] by blast
  define s1 where "s1 = deliver_all (events_after_start e) (log_call Hackrf_start_rx s)"
  define s2 where "s2 = fprintf_stderr ''Stop with Ctrl-C\<newline>'' s1"
  have m: "main e = map_option (\<lambda>s'. (0, snd (teardown e HACKRF_SUCCESS s'))) (liveness_loop e 0 s2)"
    unfolding main_def s(1) s2_def s1_def
    by (simp add: start_receiving_ok [OF assms] split: option.splits)
  have "do_exit (log_call Hackrf_start_rx s) = do_exit initial"
    by (simp add: s(5) log_call_def initial_def)
  then have "do_exit s1 = do_exit (deliver_all (events_after_start e) initial)"
    unfolding s1_def by (rule deliver_all_do_exit_cong)
  then have d: "do_exit s2 = do_exit (deliver_all (events_after_start e) initial)"
    by (simp add: s2_def fprintf_stderr_def)
  have f: "fp s2 = fp s" "device s2 = device s"
    "filter is_teardown (calls s2) = filter is_teardown (calls s)"
    by (simp_all add: s2_def s1_def fprintf_stderr_def deliver_all_frame log_call_def)
  show ?thesis
    using m d f s(2,3,4) by (intro exI [of _ s2]) simp
qed

lemma teardown_calls:
  assumes "device s \<noteq> None" and "fp s \<noteq> None"
  shows "calls (snd (teardown e r s)) =
           calls (deliver_all (events_during_stop e) (log_call Hackrf_stop_rx s))
             @ [Hackrf_close, Hackrf_exit, Fclose]"
    and "filter is_teardown (calls (snd (teardown e r s))) =
           filter is_teardown (calls s) @ [Hackrf_stop_rx, Hackrf_close, Hackrf_exit, Fclose]"
    and "stderr (snd (teardown e r s)) =
           stderr (deliver_all (events_during_stop e) (log_call Hackrf_stop_rx s))
             @ (if hackrf_stop_rx_ret e \<noteq> HACKRF_SUCCESS
                then failed_msg e ''hackrf_stop_rx()'' (hackrf_stop_rx_ret e) else [])
             @ (if hackrf_close_ret e \<noteq> HACKRF_SUCCESS
                then failed_msg e ''hackrf_close()'' (hackrf_close_ret e) else [])"
proof -
  let ?t = "deliver_all (events_during_stop e) (log_call Hackrf_stop_rx s)"
  have fp: "fp ?t \<noteq> None"
    using assms(2) by (simp add: deliver_all_frame log_call_def)
  show c: "calls (snd (teardown e r s)) = calls ?t @ [Hackrf_close, Hackrf_exit, Fclose]"
    using assms(1) fp by (simp add: teardown_def Let_def log_call_def fprintf_stderr_def)
  show "filter is_teardown (calls (snd (teardown e r s))) =
           filter is_teardown (calls s) @ [Hackrf_stop_rx, Hackrf_close, Hackrf_exit, Fclose]"
    unfolding c by (simp add: deliver_all_frame) (simp add: log_call_def)
  show "stderr (snd (teardown e r s)) =
           stderr ?t
             @ (if hackrf_stop_rx_ret e \<noteq> HACKRF_SUCCESS
                then failed_msg e ''hackrf_stop_rx()'' (hackrf_stop_rx_ret e) else [])
             @ (if hackrf_close_ret e \<noteq> HACKRF_SUCCESS
                then failed_msg e ''hackrf_close()'' (hackrf_close_ret e) else [])"
    using assms(1) fp by (simp add: teardown_def Let_def log_call_def fprintf_stderr_def)
qed

section \<open>The claims about \<^verbatim>\<open>main\<close>\<close>

text \<open>
  C9. One delivery of a signal sets the exit flag; after any further deliveries the flag
  has the same value, true, as after the first. Nothing sets it back: from a state in
  which the flag is true it is still true after any sequence of handler and callback
  invocations, after the liveness loop and after the teardown.
\<close>

theorem signals_idempotent:
  "do_exit (sigint_callback_handler n s) = True
   \<and> do_exit (signals (n # ns) s) = do_exit (sigint_callback_handler n s)
   \<and> do_exit (deliver_all evs (s\<lparr>do_exit := True\<rparr>)) = True
   \<and> map_option do_exit (liveness_loop e m (s\<lparr>do_exit := True\<rparr>)) = Some True
   \<and> do_exit (snd (teardown e r (s\<lparr>do_exit := True\<rparr>))) = True"
proof -
  have "do_exit (sigint_callback_handler n s)"
    by (simp add: handler_eq)
  moreover from this have "do_exit (signals ns (sigint_callback_handler n s))"
    by (rule signals_do_exit)
  moreover have "do_exit (deliver_all evs (s\<lparr>do_exit := True\<rparr>))"
    by (rule deliver_all_do_exit) simp
  moreover have "map_option do_exit (liveness_loop e m (s\<lparr>do_exit := True\<rparr>)) = Some True"
    by (simp add: loop_stop log_call_def)
  moreover have "do_exit (snd (teardown e r (s\<lparr>do_exit := True\<rparr>)))"
    by (simp add: teardown_def Let_def deliver_all_do_exit log_call_def fprintf_stderr_def)
  ultimately show ?thesis by simp
qed

text \<open>
  C3, as the code has it. When a startup step fails, \<^verbatim>\<open>main\<close> prints its diagnostic and
  returns \<^verbatim>\<open>EXIT_FAILURE\<close> at once: the calls made are exactly those up to the failed
  step, none of \<^verbatim>\<open>hackrf_stop_rx\<close>, \<^verbatim>\<open>hackrf_close\<close>, \<^verbatim>\<open>hackrf_exit\<close> and
  \<^verbatim>\<open>fclose\<close> is among them, and \<^verbatim>\<open>fp\<close> still holds what \<^verbatim>\<open>fopen\<close> returned. The
  program itself releases nothing on an early abort.
\<close>

theorem early_abort_no_teardown:
  assumes "first_failure e = Some k"
  shows "\<exists>s. main e = Some (EXIT_FAILURE, s) \<and> calls s = calls_until k
           \<and> list_ex is_teardown (calls s) = False \<and> fp s = fopen_ret e"
proof -
  obtain s where s: "main e = Some (EXIT_FAILURE, s)" "calls s = calls_until k"
      "fp s = fopen_ret e"
    using main_abort [OF assms] by blast
  have "list_ex is_teardown (calls_until k) = False"
    by (cases k) simp_all
  with s show ?thesis by simp
qed

theorem early_abort_no_teardown_witness:
  "\<exists>s. main (env_ok\<lparr>hackrf_set_sample_rate_ret := - 2\<rparr>) = Some (EXIT_FAILURE, s)
      \<and> calls s = calls_until Sample_rate_set
      \<and> list_ex is_teardown (calls s) = False \<and> fp s = Some 1"
  using early_abort_no_teardown [of "env_ok\<lparr>hackrf_set_sample_rate_ret := - 2\<rparr>" Sample_rate_set]
  by (simp add: first_failure_def startup_steps_def env_ok_def HACKRF_SUCCESS_def)

text \<open>
  C3 as stated fails. When \<^verbatim>\<open>hackrf_set_freq\<close> fails, the output file and the device
  are open, and \<^verbatim>\<open>main\<close> returns \<^verbatim>\<open>EXIT_FAILURE\<close> after four calls, none of which
  closes either.
\<close>

theorem set_freq_failure_releases_nothing:
  "map_option (calls \<circ> snd) (main (env_ok\<lparr>hackrf_set_freq_ret := - 2\<rparr>))
     = Some [Fopen OUTPUT_FILE ''w'', Hackrf_init, Hackrf_open_by_serial,
             Hackrf_set_freq RADIO_FREQ]
   \<and> map_option (list_ex is_teardown \<circ> calls \<circ> snd) (main (env_ok\<lparr>hackrf_set_freq_ret := - 2\<rparr>))
     = Some False
   \<and> map_option (fp \<circ> snd) (main (env_ok\<lparr>hackrf_set_freq_ret := - 2\<rparr>)) = Some (Some 1)
   \<and> map_option (device \<circ> snd) (main (env_ok\<lparr>hackrf_set_freq_ret := - 2\<rparr>)) = Some (Some 2)
   \<and> map_option fst (main (env_ok\<lparr>hackrf_set_freq_ret := - 2\<rparr>)) = Some EXIT_FAILURE"
  by (simp add: run_defs env_ok_def HACKRF_SUCCESS_def)

text \<open>
  C6, as the code has it. If startup step \<open>k\<close> is the first to fail, \<^verbatim>\<open>main\<close> returns
  \<^verbatim>\<open>EXIT_FAILURE\<close>, which is not 0, and \<^verbatim>\<open>stderr\<close> holds exactly the diagnostic of
  that step: for the five library calls the name of the call with the library's error
  name and the numeric code, for the output file the fixed text
  \<^verbatim>\<open>Error opening output file\<close>, which carries no error code. The streaming status is
  never queried, \<^verbatim>\<open>main\<close> never sleeps, the callback is never entered and nothing is
  written to the output file. If every step succeeds and a signal reaches the handler,
  right after the start or during some second of sleep, \<^verbatim>\<open>main\<close> returns 0.
\<close>

theorem startup_failure_or_interrupt:
  "(first_failure e = Some k \<longrightarrow>
      (\<exists>s. main e = Some (EXIT_FAILURE, s) \<and> EXIT_FAILURE \<noteq> 0
         \<and> stderr s = diagnostic e k
         \<and> Hackrf_is_streaming \<notin> set (calls s) \<and> Sleep 1 \<notin> set (calls s)
         \<and> Enter_rx_callback \<notin> set (calls s) \<and> output_file s = []))
   \<and> (first_failure e = None
        \<and> (list_ex is_handler (events_after_start e)
             \<or> list_ex is_handler (events_during_sleep e n)) \<longrightarrow>
      (\<exists>s. main e = Some (0, s)))"
proof (intro conjI impI)
  assume k: "first_failure e = Some k"
  obtain s where s: "main e = Some (EXIT_FAILURE, s)" "stderr s = diagnostic e k"
      "calls s = calls_until k" "output_file s = []"
    using main_abort [OF k] by blast
  have "Hackrf_is_streaming \<notin> set (calls_until k) \<and> Sleep 1 \<notin> set (calls_until k)
      \<and> Enter_rx_callback \<notin> set (calls_until k)"
    by (cases k) simp_all
  with s show "\<exists>s. main e = Some (EXIT_FAILURE, s) \<and> EXIT_FAILURE \<noteq> 0
         \<and> stderr s = diagnostic e k
         \<and> Hackrf_is_streaming \<notin> set (calls s) \<and> Sleep 1 \<notin> set (calls s)
         \<and> Enter_rx_callback \<notin> set (calls s) \<and> output_file s = []"
    by (simp add: EXIT_FAILURE_def)
next
  assume a: "first_failure e = None
        \<and> (list_ex is_handler (events_after_start e)
             \<or> list_ex is_handler (events_during_sleep e n))"
  then have ff: "first_failure e = None" by simp
  obtain s where s: "main e =
        map_option (\<lambda>s'. (0, snd (teardown e HACKRF_SUCCESS s'))) (liveness_loop e 0 s)"
      "do_exit s = do_exit (deliver_all (events_after_start e) initial)"
    using main_ok [OF ff] by blast
  have "\<exists>s'. liveness_loop e 0 s = Some s'"
  proof (cases "list_ex is_handler (events_after_start e)")
    case True
    then have "do_exit s" by (simp add: s(2) deliver_all_handler)
    then show ?thesis by (simp add: loop_stop)
  next
    case False
    with a have "list_ex is_handler (events_during_sleep e (0 + n))" by simp
    then show ?thesis by (rule loop_returns_signal)
  qed
  then obtain s' where "liveness_loop e 0 s = Some s'" ..
  then show "\<exists>s. main e = Some (0, s)" by (simp add: s(1))
qed

theorem startup_failure_or_interrupt_witness:
  "(\<exists>s. main (env_ok\<lparr>hackrf_open_by_serial_ret := - 5\<rparr>) = Some (EXIT_FAILURE, s)
       \<and> stderr s = ''hackrf_open() failed: error (-5)\<newline>'' \<and> output_file s = [])
   \<and> (\<exists>s. main env_ok = Some (0, s))"
proof -
  have 1: "first_failure (env_ok\<lparr>hackrf_open_by_serial_ret := - 5\<rparr>) = Some Device_open"
    by (simp add: first_failure_def startup_steps_def env_ok_def HACKRF_SUCCESS_def)
  have 2: "first_failure env_ok = None
      \<and> (list_ex is_handler (events_after_start env_ok)
           \<or> list_ex is_handler (events_during_sleep env_ok 1))"
    by (simp add: first_failure_def startup_steps_def env_ok_def HACKRF_SUCCESS_def)
  have 3: "diagnostic (env_ok\<lparr>hackrf_open_by_serial_ret := - 5\<rparr>) Device_open
      = ''hackrf_open() failed: error (-5)\<newline>''"
    by (simp add: failed_msg_def env_ok_def show_int_def show_nat.simps digit_def)
  from startup_failure_or_interrupt [of "env_ok\<lparr>hackrf_open_by_serial_ret := - 5\<rparr>" Device_open]
    startup_failure_or_interrupt [of env_ok Sink_open 1] 1 2 3
  show ?thesis by auto
qed

text \<open>
  C6 as stated fails for the first step. When \<^verbatim>\<open>fopen\<close> fails, the diagnostic is the
  fixed text, whatever the reason of the failure: the runs with \<^verbatim>\<open>errno\<close> 13 and with
  \<^verbatim>\<open>errno\<close> 2 are the same.
\<close>

theorem fopen_failure_diagnostic:
  "map_option (stderr \<circ> snd) (main (env_ok\<lparr>fopen_ret := None, fopen_errno := 13\<rparr>))
     = Some ''Error opening output file''
   \<and> main (env_ok\<lparr>fopen_ret := None, fopen_errno := 13\<rparr>)
     = main (env_ok\<lparr>fopen_ret := None, fopen_errno := 2\<rparr>)"
  by (simp add: run_defs env_ok_def)

text \<open>
  C7, as the code has it. Run with a device handle and a stream that are not
  \<^verbatim>\<open>NULL\<close>, the teardown calls \<^verbatim>\<open>hackrf_stop_rx\<close>, \<^verbatim>\<open>hackrf_close\<close>,
  \<^verbatim>\<open>hackrf_exit\<close> and \<^verbatim>\<open>fclose\<close>, once each and in this order, whatever the first two
  return; a failure of \<^verbatim>\<open>hackrf_stop_rx\<close> or of \<^verbatim>\<open>hackrf_close\<close> adds its diagnostic
  to \<^verbatim>\<open>stderr\<close>, and nothing else is printed: what \<^verbatim>\<open>hackrf_exit\<close> and \<^verbatim>\<open>fclose\<close>
  return is not looked at. In every run of \<^verbatim>\<open>main\<close> that passes startup with a device
  handle and leaves the loop, these four are the only teardown calls of the whole run,
  and the exit status is 0.
\<close>

theorem teardown_all_steps:
  "(device s \<noteq> None \<and> fp s \<noteq> None \<longrightarrow>
      calls (snd (teardown e r s)) =
        calls (deliver_all (events_during_stop e) (log_call Hackrf_stop_rx s))
          @ [Hackrf_close, Hackrf_exit, Fclose]
      \<and> filter is_teardown (calls (snd (teardown e r s))) =
          filter is_teardown (calls s) @ [Hackrf_stop_rx, Hackrf_close, Hackrf_exit, Fclose]
      \<and> stderr (snd (teardown e r s)) =
          stderr (deliver_all (events_during_stop e) (log_call Hackrf_stop_rx s))
            @ (if hackrf_stop_rx_ret e \<noteq> HACKRF_SUCCESS
               then failed_msg e ''hackrf_stop_rx()'' (hackrf_stop_rx_ret e) else [])
            @ (if hackrf_close_ret e \<noteq> HACKRF_SUCCESS
               then failed_msg e ''hackrf_close()'' (hackrf_close_ret e) else []))
   \<and> (first_failure e = None \<and> hackrf_open_by_serial_device e \<noteq> None
        \<and> main e = Some (status, final) \<longrightarrow>
      status = 0
      \<and> filter is_teardown (calls final) = [Hackrf_stop_rx, Hackrf_close, Hackrf_exit, Fclose])"
proof (intro conjI impI)
  assume a: "first_failure e = None \<and> hackrf_open_by_serial_device e \<noteq> None
        \<and> main e = Some (status, final)"
  then have ff: "first_failure e = None" and dev: "hackrf_open_by_serial_device e \<noteq> None"
    and ret: "main e = Some (status, final)"
    by simp_all
  obtain s0 where s0: "main e =
        map_option (\<lambda>s'. (0, snd (teardown e HACKRF_SUCCESS s'))) (liveness_loop e 0 s0)"
      "fp s0 \<noteq> None" "device s0 = hackrf_open_by_serial_device e"
      "filter is_teardown (calls s0) = []"
    using main_ok [OF ff] by blast
  from ret s0(1) obtain s1 where s1: "liveness_loop e 0 s0 = Some s1"
      and fin: "status = 0" "final = snd (teardown e HACKRF_SUCCESS s1)"
    by (cases "liveness_loop e 0 s0") simp_all
  from loop_frame [OF s1] s0 dev
  have s1': "device s1 \<noteq> None" "fp s1 \<noteq> None" "filter is_teardown (calls s1) = []"
    by simp_all
  show "status = 0" by (rule fin(1))
  show "filter is_teardown (calls final) = [Hackrf_stop_rx, Hackrf_close, Hackrf_exit, Fclose]"
    unfolding fin(2) teardown_calls(2) [OF s1'(1,2)] by (simp add: s1'(3))
next
  assume a: "device s \<noteq> None \<and> fp s \<noteq> None"
  then have d: "device s \<noteq> None" and f: "fp s \<noteq> None" by simp_all
  show "calls (snd (teardown e r s)) =
        calls (deliver_all (events_during_stop e) (log_call Hackrf_stop_rx s))
          @ [Hackrf_close, Hackrf_exit, Fclose]"
    by (rule teardown_calls(1) [OF d f])
  show "filter is_teardown (calls (snd (teardown e r s))) =
          filter is_teardown (calls s) @ [Hackrf_stop_rx, Hackrf_close, Hackrf_exit, Fclose]"
    by (rule teardown_calls(2) [OF d f])
  show "stderr (snd (teardown e r s)) =
          stderr (deliver_all (events_during_stop e) (log_call Hackrf_stop_rx s))
            @ (if hackrf_stop_rx_ret e \<noteq> HACKRF_SUCCESS
               then failed_msg e ''hackrf_stop_rx()'' (hackrf_stop_rx_ret e) else [])
            @ (if hackrf_close_ret e \<noteq> HACKRF_SUCCESS
               then failed_msg e ''hackrf_close()'' (hackrf_close_ret e) else [])"
    by (rule teardown_calls(3) [OF d f])
qed

theorem teardown_all_steps_witness:
  "filter is_teardown (calls (snd (teardown (env_ok\<lparr>hackrf_stop_rx_ret := - 1\<rparr>) 0
       (initial\<lparr>device := Some 2, fp := Some 1\<rparr>))))
     = [Hackrf_stop_rx, Hackrf_close, Hackrf_exit, Fclose]
   \<and> stderr (snd (teardown (env_ok\<lparr>hackrf_stop_rx_ret := - 1\<rparr>) 0
       (initial\<lparr>device := Some 2, fp := Some 1\<rparr>)))
     = ''hackrf_stop_rx() failed: error (-1)\<newline>''
   \<and> map_option fst (main (env_ok\<lparr>hackrf_stop_rx_ret := - 1\<rparr>)) = Some 0
   \<and> map_option (filter is_teardown \<circ> calls \<circ> snd) (main (env_ok\<lparr>hackrf_stop_rx_ret := - 1\<rparr>))
     = Some [Hackrf_stop_rx, Hackrf_close, Hackrf_exit, Fclose]"
proof -
  let ?e = "env_ok\<lparr>hackrf_stop_rx_ret := - 1\<rparr>"
  let ?s = "initial\<lparr>device := Some 2, fp := Some 1\<rparr>"
  have "\<exists>st. main ?e = Some (0, st)"
    by (simp add: run_defs env_ok_def HACKRF_SUCCESS_def HACKRF_TRUE_def liveness_loop.simps
        handler_eq rx_callback_def fwrite_def)
  then obtain st where st: "main ?e = Some (0, st)" ..
  have f: "first_failure ?e = None \<and> hackrf_open_by_serial_device ?e \<noteq> None
      \<and> main ?e = Some (0, st)"
    using st by (simp add: first_failure_def startup_steps_def env_ok_def HACKRF_SUCCESS_def)
  have g: "device ?s \<noteq> None \<and> fp ?s \<noteq> None"
    by (simp add: initial_def)
  have h: "stderr (deliver_all (events_during_stop ?e) (log_call Hackrf_stop_rx ?s))
      @ (if hackrf_stop_rx_ret ?e \<noteq> HACKRF_SUCCESS
         then failed_msg ?e ''hackrf_stop_rx()'' (hackrf_stop_rx_ret ?e) else [])
      @ (if hackrf_close_ret ?e \<noteq> HACKRF_SUCCESS
         then failed_msg ?e ''hackrf_close()'' (hackrf_close_ret ?e) else [])
      = ''hackrf_stop_rx() failed: error (-1)\<newline>''"
    by (simp add: env_ok_def initial_def failed_msg_def rx_callback_def fwrite_def log_call_def
        HACKRF_SUCCESS_def show_int_def show_nat.simps digit_def)
  have i: "filter is_teardown (calls ?s) = []"
    by (simp add: initial_def)
  from teardown_all_steps [where s = ?s and e = ?e and r = 0 and status = 0 and final = st] f g
  have "filter is_teardown (calls (snd (teardown ?e 0 ?s))) =
          filter is_teardown (calls ?s) @ [Hackrf_stop_rx, Hackrf_close, Hackrf_exit, Fclose]"
    and "stderr (snd (teardown ?e 0 ?s)) =
          stderr (deliver_all (events_during_stop ?e) (log_call Hackrf_stop_rx ?s))
            @ (if hackrf_stop_rx_ret ?e \<noteq> HACKRF_SUCCESS
               then failed_msg ?e ''hackrf_stop_rx()'' (hackrf_stop_rx_ret ?e) else [])
            @ (if hackrf_close_ret ?e \<noteq> HACKRF_SUCCESS
               then failed_msg ?e ''hackrf_close()'' (hackrf_close_ret ?e) else [])"
    and "filter is_teardown (calls st) = [Hackrf_stop_rx, Hackrf_close, Hackrf_exit, Fclose]"
    by blast+
  then show ?thesis
    unfolding h i by (simp add: st)
qed

text \<open>
  C7 as stated fails in its last part: a teardown failure is not always logged. With
  \<^verbatim>\<open>hackrf_exit\<close> returning an error code and \<^verbatim>\<open>fclose\<close> returning \<^verbatim>\<open>EOF\<close>, all four
  steps run and \<^verbatim>\<open>stderr\<close> holds the two lines of the normal run only.
\<close>

theorem exit_and_fclose_failures_silent:
  "map_option (stderr \<circ> snd) (main (env_ok\<lparr>hackrf_exit_ret := - 2000, fclose_ret := - 1\<rparr>))
     = Some ''Stop with Ctrl-C\<newline>Caught signal 2\<newline>''
   \<and> map_option (filter is_teardown \<circ> calls \<circ> snd)
       (main (env_ok\<lparr>hackrf_exit_ret := - 2000, fclose_ret := - 1\<rparr>))
     = Some [Hackrf_stop_rx, Hackrf_close, Hackrf_exit, Fclose]"
  by (simp add: run_defs env_ok_def HACKRF_SUCCESS_def HACKRF_TRUE_def liveness_loop.simps
      handler_eq rx_callback_def fwrite_def show_int_def show_nat.simps digit_def)

text \<open>
  C8. When the exit flag is true or the streaming query does not return
  \<^verbatim>\<open>HACKRF_TRUE\<close>, the loop returns after that one query, without sleeping. A run of the
  loop that returns and did sleep started with the query returning \<^verbatim>\<open>HACKRF_TRUE\<close> and
  the flag false; and in that case the loop is the body followed by the loop at the next
  query.
\<close>

theorem liveness_loop_exit:
  "(do_exit s \<or> hackrf_is_streaming_ret e n \<noteq> HACKRF_TRUE \<longrightarrow>
      liveness_loop e n s = Some (log_call Hackrf_is_streaming s)
      \<and> Sleep 1 \<notin> set (drop (length (calls s)) (calls (log_call Hackrf_is_streaming s))))
   \<and> (liveness_loop e n s = Some s' \<and> Sleep 1 \<in> set (drop (length (calls s)) (calls s')) \<longrightarrow>
        hackrf_is_streaming_ret e n = HACKRF_TRUE \<and> do_exit s = False)
   \<and> (hackrf_is_streaming_ret e n = HACKRF_TRUE \<and> do_exit s = False \<longrightarrow>
        liveness_loop e n s =
          liveness_loop e (Suc n) (sleep e n (log_call Hackrf_is_streaming s)))"
proof (intro conjI impI)
  assume "do_exit s \<or> hackrf_is_streaming_ret e n \<noteq> HACKRF_TRUE"
  then show "liveness_loop e n s = Some (log_call Hackrf_is_streaming s)"
    by (rule loop_stop)
next
  show "Sleep 1 \<notin> set (drop (length (calls s)) (calls (log_call Hackrf_is_streaming s)))"
    by (simp add: log_call_def)
next
  assume a: "liveness_loop e n s = Some s' \<and> Sleep 1 \<in> set (drop (length (calls s)) (calls s'))"
  then obtain cs where cs: "calls s' = calls s @ Hackrf_is_streaming # cs"
    and alt: "cs = [] \<or> (hd cs = Sleep 1 \<and> do_exit s = False
              \<and> hackrf_is_streaming_ret e n = HACKRF_TRUE)"
    using loop_calls by blast
  from a have "cs \<noteq> []" by (auto simp: cs)
  with alt show "hackrf_is_streaming_ret e n = HACKRF_TRUE" and "do_exit s = False"
    by simp_all
next
  assume "hackrf_is_streaming_ret e n = HACKRF_TRUE \<and> do_exit s = False"
  then show "liveness_loop e n s =
      liveness_loop e (Suc n) (sleep e n (log_call Hackrf_is_streaming s))"
    by (simp add: loop_continue)
qed

theorem liveness_loop_exit_witness:
  "liveness_loop env_ok 0 (initial\<lparr>do_exit := True\<rparr>)
     = Some (initial\<lparr>do_exit := True, calls := [Hackrf_is_streaming]\<rparr>)
   \<and> liveness_loop (env_ok\<lparr>hackrf_is_streaming_ret := (\<lambda>n. 0)\<rparr>) 0 initial
     = Some (initial\<lparr>calls := [Hackrf_is_streaming]\<rparr>)
   \<and> liveness_loop env_ok 0 initial
     = liveness_loop env_ok 1 (sleep env_ok 0 (log_call Hackrf_is_streaming initial))"
  using liveness_loop_exit [of "initial\<lparr>do_exit := True\<rparr>" env_ok 0]
    liveness_loop_exit [of initial "env_ok\<lparr>hackrf_is_streaming_ret := (\<lambda>n. 0)\<rparr>" 0]
    liveness_loop_exit [of initial env_ok 0]
  by (simp add: initial_def env_ok_def log_call_def HACKRF_TRUE_def)

text \<open>
  C10. Whenever the statement \<^verbatim>\<open>result |= hackrf_start_rx(...)\<close> is reached, \<^verbatim>\<open>result\<close>
  is \<^verbatim>\<open>HACKRF_SUCCESS\<close>, that is 0, and the statement with \<^verbatim>\<open>|=\<close> does what the one
  with \<^verbatim>\<open>=\<close> does; so \<^verbatim>\<open>main\<close> is the same program with either.
\<close>

theorem start_rx_or_is_assignment:
  "(configure e initial = Inr (result, s) \<longrightarrow>
      result = HACKRF_SUCCESS
      \<and> start_receiving e result s = start_receiving_assign e result s)
   \<and> main e = main_assign e"
proof -
  have a: "start_receiving e HACKRF_SUCCESS s = start_receiving_assign e HACKRF_SUCCESS s" for s
    by (simp add: start_receiving_def start_receiving_assign_def HACKRF_SUCCESS_def)
  have b: "configure e initial = Inr (r, s) \<Longrightarrow> r = HACKRF_SUCCESS" for r s
    using configure_Inr by blast
  have "main e = main_assign e"
  proof (cases "configure e initial")
    case (Inl x)
    then show ?thesis by (simp add: main_def main_assign_def)
  next
    case (Inr y)
    obtain r s where y: "y = (r, s)" by (cases y)
    with Inr b have "r = HACKRF_SUCCESS" by simp
    with Inr y a show ?thesis by (simp add: main_def main_assign_def)
  qed
  with a b show ?thesis by auto
qed

theorem start_rx_or_is_assignment_witness:
  "isl (configure env_ok initial) = False
   \<and> fst (projr (configure env_ok initial)) = HACKRF_SUCCESS
   \<and> start_receiving env_ok (fst (projr (configure env_ok initial)))
        (snd (projr (configure env_ok initial)))
     = start_receiving_assign env_ok (fst (projr (configure env_ok initial)))
        (snd (projr (configure env_ok initial)))
   \<and> main env_ok = main_assign env_ok"
proof -
  have c: "isl (configure env_ok initial) = False"
    by (simp add: configure_def env_ok_def fopen_w_def log_call_def HACKRF_SUCCESS_def)
  then have "configure env_ok initial
      = Inr (fst (projr (configure env_ok initial)), snd (projr (configure env_ok initial)))"
    by (cases "configure env_ok initial") simp_all
  with c start_rx_or_is_assignment [of env_ok "fst (projr (configure env_ok initial))"
      "snd (projr (configure env_ok initial))"]
  show ?thesis by blast
qed

end
